theory Spec2Isabelle
  imports Main "HOL-Library.Multiset" "HOL-Library.Product_Lexorder"
begin

section \<open>Data model of the calendar plugin (src/main.ts, multi-calendar version)\<close>

text \<open>
  The model follows the second definition of the plugin class in \<^verbatim>\<open>src/main.ts\<close>
  (the one whose settings hold a list of calendars). JavaScript strings are \<^typ>\<open>string\<close>,
  a JSON field that may be absent is a \<^typ>\<open>string option\<close>, epoch milliseconds are \<^typ>\<open>int\<close>.
\<close>

record calendar =
  calendar_id :: string
  label :: string

record settings =
  clientId :: string
  clientSecret :: string
  refreshToken :: string
  accessToken :: string
  accessTokenExpiry :: int
  calendars :: "calendar list"

text \<open>
  JavaScript truthiness of a value that is a string or \<^verbatim>\<open>undefined\<close>: the empty string and
  \<^verbatim>\<open>undefined\<close> are falsy. \<^verbatim>\<open>a || b\<close> yields \<^verbatim>\<open>a\<close> when it is truthy and \<^verbatim>\<open>b\<close> otherwise.
\<close>

definition truthy :: "string option \<Rightarrow> bool" where
  "truthy v = (case v of None \<Rightarrow> False | Some s \<Rightarrow> s \<noteq> [])"

definition js_or :: "string option \<Rightarrow> string option \<Rightarrow> string option" where
  "js_or a b = (if truthy a then a else b)"

text \<open>
  A JavaScript number that is either an integer or \<^verbatim>\<open>NaN\<close>. A \<^verbatim>\<open>Date\<close> object is represented by
  its time value (\<^verbatim>\<open>getTime()\<close>), which is \<^verbatim>\<open>NaN\<close> for an Invalid Date.
\<close>

datatype jsnum = Num int | NaN

fun js_strict_ne :: "jsnum \<Rightarrow> jsnum \<Rightarrow> bool" where
  "js_strict_ne (Num x) (Num y) = (x \<noteq> y)"
| "js_strict_ne _ _ = True"

fun js_sub :: "jsnum \<Rightarrow> jsnum \<Rightarrow> jsnum" where
  "js_sub (Num x) (Num y) = Num (x - y)"
| "js_sub _ _ = NaN"

text \<open>The event object of the calendar API, restricted to the fields the plugin reads.\<close>

record event_start =
  dateTime :: "string option"
  date :: "string option"

record raw_event =
  start :: "event_start option"
  summary :: "string option"
  description :: "string option"

text \<open>\<^verbatim>\<open>event.start?.dateTime\<close> and \<^verbatim>\<open>event.start?.date\<close>.\<close>

definition start_dateTime :: "raw_event \<Rightarrow> string option" where
  "start_dateTime e = (case start e of None \<Rightarrow> None | Some s \<Rightarrow> dateTime s)"

definition start_date :: "raw_event \<Rightarrow> string option" where
  "start_date e = (case start e of None \<Rightarrow> None | Some s \<Rightarrow> date s)"

text \<open>An element of the array \<^verbatim>\<open>allEvents\<close>; \<^verbatim>\<open>startTime\<close> is \<^verbatim>\<open>Date | null\<close>.\<close>

record item =
  event :: raw_event
  calendarLabel :: string
  calendarIndex :: nat
  isAllDay :: bool
  startTime :: "jsnum option"

section \<open>Effects\<close>

text \<open>
  The network, the settings store, the notices and the editor are outside the plugin. Every
  call to them is logged, in order, in a trace of effects. A notice is identified by the
  message template of its \<^verbatim>\<open>new Notice(...)\<close> call and the values interpolated into it.
\<close>

record token_request =
  client_id :: string
  client_secret :: string
  refresh_token :: string
  grant_type :: string

text \<open>
  What the body of the \<^verbatim>\<open>try\<close> block obtains from the token endpoint: either \<^verbatim>\<open>requestUrl\<close> or
  \<^verbatim>\<open>JSON.parse\<close> throws, or the parsed object carries the optional fields \<^verbatim>\<open>access_token\<close> and
  \<^verbatim>\<open>expires_in\<close>.
\<close>

datatype token_response =
  TokenThrows string
| TokenData "string option" "int option"

record events_request =
  calendarId :: string
  timeMin :: string
  timeMax :: string
  bearer :: string

text \<open>
  The outcome of one calendar query: a throw of \<^verbatim>\<open>requestUrl\<close> or \<^verbatim>\<open>JSON.parse\<close>, or the
  parsed body with its optional \<^verbatim>\<open>items\<close> array of event objects.
\<close>

datatype events_response =
  EventsThrows string
| EventsData "raw_event list option"

datatype notice =
  NoRefreshToken
| RefreshFailed
| RefreshError string
| NoCalendars
| SourceFetchError string string
| NoEvents string
| Inserted nat nat
| NoActiveNote

datatype effect =
  PostToken token_request
| GetEvents events_request
| SaveSettings settings
| ShowNotice notice
| ReplaceSelection string

fun isNetworkCall :: "effect \<Rightarrow> bool" where
  "isNetworkCall (PostToken _) = True"
| "isNetworkCall (GetEvents _) = True"
| "isNetworkCall _ = False"

fun isSave :: "effect \<Rightarrow> bool" where
  "isSave (SaveSettings _) = True"
| "isSave _ = False"

definition networkCalls :: "effect list \<Rightarrow> nat" where
  "networkCalls tr = length (filter isNetworkCall tr)"

definition saves :: "effect list \<Rightarrow> nat" where
  "saves tr = length (filter isSave tr)"

text \<open>
  The environment of one command: the token endpoint, the calendar endpoint (the first
  argument is the position of the call in the loop, as two calls for the same calendar
  need not answer alike), \<^verbatim>\<open>new Date(string)\<close>, \<^verbatim>\<open>Date.now()\<close> and whether a Markdown view is
  active.
\<close>

record env =
  requestToken :: "token_request \<Rightarrow> token_response"
  requestEvents :: "nat \<Rightarrow> events_request \<Rightarrow> events_response"
  parseDate :: "string \<Rightarrow> jsnum"
  now :: int
  activeView :: bool

section \<open>ensureValidAccessToken\<close>

record token_result =
  ok :: bool
  settings_after :: settings
  effects :: "effect list"

text \<open>\<^verbatim>\<open>(data.expires_in || 3600)\<close>: an absent field and the number 0 are both falsy.\<close>

definition expires_or_default :: "int option \<Rightarrow> int" where
  "expires_or_default e = (case e of None \<Rightarrow> 3600 | Some n \<Rightarrow> if n = 0 then 3600 else n)"

definition refreshRequest :: "settings \<Rightarrow> token_request" where
  "refreshRequest s =
     \<lparr>client_id = clientId s, client_secret = clientSecret s,
      refresh_token = refreshToken s, grant_type = ''refresh_token''\<rparr>"

definition ensureValidAccessToken :: "env \<Rightarrow> settings \<Rightarrow> token_result" where
  "ensureValidAccessToken w s =
     (if refreshToken s = [] then
        \<lparr>ok = False, settings_after = s, effects = [ShowNotice NoRefreshToken]\<rparr>
      else if accessToken s \<noteq> [] \<and> accessTokenExpiry s > now w + 60000 then
        \<lparr>ok = True, settings_after = s, effects = []\<rparr>
      else
        (case requestToken w (refreshRequest s) of
           TokenThrows err \<Rightarrow>
             \<lparr>ok = False, settings_after = s,
              effects = [PostToken (refreshRequest s), ShowNotice (RefreshError err)]\<rparr>
         | TokenData access_token expires_in \<Rightarrow>
             (case access_token of
                Some tok \<Rightarrow>
                  if tok \<noteq> [] then
                    (let s' = s\<lparr>accessToken := tok,
                                accessTokenExpiry := now w + expires_or_default expires_in * 1000\<rparr>
                     in \<lparr>ok = True, settings_after = s',
                         effects = [PostToken (refreshRequest s), SaveSettings s']\<rparr>)
                  else
                    \<lparr>ok = False, settings_after = s,
                     effects = [PostToken (refreshRequest s), ShowNotice RefreshFailed]\<rparr>
              | None \<Rightarrow>
                  \<lparr>ok = False, settings_after = s,
                   effects = [PostToken (refreshRequest s), ShowNotice RefreshFailed]\<rparr>)))"

text \<open>
  The outcomes the specification names, read off the returned boolean and the notice shown:
  \<^verbatim>\<open>NotAuthenticated\<close> is the return of \<^verbatim>\<open>false\<close> with the "No refresh token" notice,
  \<^verbatim>\<open>RefreshRejected\<close> the return of \<^verbatim>\<open>false\<close> with the "Failed to refresh token" notice.
\<close>

definition notAuthenticated :: "token_result \<Rightarrow> bool" where
  "notAuthenticated r = (\<not> ok r \<and> effects r = [ShowNotice NoRefreshToken])"

definition refreshRejected :: "token_result \<Rightarrow> bool" where
  "refreshRejected r =
     (\<not> ok r \<and> filter (\<lambda>e. \<not> isNetworkCall e) (effects r) = [ShowNotice RefreshFailed])"

section \<open>fetchAndInsertEvents\<close>

subsection \<open>Normalisation and the loop over the configured calendars\<close>

text \<open>
  The body of \<^verbatim>\<open>for (const event of events)\<close>: \<^verbatim>\<open>isAllDay = !event.start?.dateTime\<close>,
  \<^verbatim>\<open>startTimeStr = event.start?.dateTime || event.start?.date\<close> and
  \<^verbatim>\<open>startTime = startTimeStr ? new Date(startTimeStr) : null\<close>.
\<close>

definition normalizeEvent :: "env \<Rightarrow> nat \<Rightarrow> calendar \<Rightarrow> raw_event \<Rightarrow> item" where
  "normalizeEvent w i cal ev =
     \<lparr>event = ev,
      calendarLabel = label cal,
      calendarIndex = i,
      isAllDay = (\<not> truthy (start_dateTime ev)),
      startTime =
        (case js_or (start_dateTime ev) (start_date ev) of
           None \<Rightarrow> None
         | Some startTimeStr \<Rightarrow>
             if startTimeStr \<noteq> [] then Some (parseDate w startTimeStr) else None)\<rparr>"

text \<open>\<^verbatim>\<open>data.items || []\<close>.\<close>

definition itemsOrEmpty :: "raw_event list option \<Rightarrow> raw_event list" where
  "itemsOrEmpty items = (case items of None \<Rightarrow> [] | Some es \<Rightarrow> es)"

definition eventsRequest :: "string \<Rightarrow> string \<Rightarrow> string \<Rightarrow> calendar \<Rightarrow> events_request" where
  "eventsRequest tmin tmax tok cal =
     \<lparr>calendarId = calendar_id cal, timeMin = tmin, timeMax = tmax, bearer = tok\<rparr>"

text \<open>
  The loop \<^verbatim>\<open>for (let calendarIndex = 0; ...)\<close> from position \<open>i\<close> on: the events pushed to
  \<^verbatim>\<open>allEvents\<close> and the effects, in order. A throw inside the inner \<^verbatim>\<open>try\<close> shows a notice
  naming the calendar and the loop goes on with the next calendar.
\<close>

fun fetchLoop :: "env \<Rightarrow> string \<Rightarrow> string \<Rightarrow> string \<Rightarrow> nat \<Rightarrow> calendar list \<Rightarrow> item list \<times> effect list" where
  "fetchLoop w tmin tmax tok i [] = ([], [])"
| "fetchLoop w tmin tmax tok i (cal # cals) =
     (let req = eventsRequest tmin tmax tok cal;
          rest = fetchLoop w tmin tmax tok (Suc i) cals
      in case requestEvents w i req of
           EventsThrows err \<Rightarrow>
             (fst rest, GetEvents req # ShowNotice (SourceFetchError (label cal) err) # snd rest)
         | EventsData items \<Rightarrow>
             (map (normalizeEvent w i cal) (itemsOrEmpty items) @ fst rest,
              GetEvents req # snd rest))"

subsection \<open>The merge comparator and the sort\<close>

text \<open>The function passed to \<^verbatim>\<open>allEvents.sort\<close>.\<close>

definition compareEvents :: "item \<Rightarrow> item \<Rightarrow> jsnum" where
  "compareEvents a b =
     (if isAllDay a \<noteq> isAllDay b then (if isAllDay a then Num (- 1) else Num 1)
      else
        (case (startTime a, startTime b) of
           (Some ta, Some tb) \<Rightarrow>
             if \<not> isAllDay a \<and> \<not> isAllDay b \<and> js_strict_ne ta tb then js_sub ta tb
             else Num (int (calendarIndex a) - int (calendarIndex b))
         | _ \<Rightarrow> Num (int (calendarIndex a) - int (calendarIndex b))))"

text \<open>
  \<^verbatim>\<open>Array.prototype.sort\<close> with a comparator. The language standard reads a \<^verbatim>\<open>NaN\<close> result of
  the comparator as \<open>0\<close> and requires the sort to be stable; for a comparator that is a
  consistent ordering the sorted array is then unique, and it is the one this insertion sort
  computes: an element goes in front of the first later element it does not exceed.
\<close>

definition sortCompare :: "('a \<Rightarrow> 'a \<Rightarrow> jsnum) \<Rightarrow> 'a \<Rightarrow> 'a \<Rightarrow> int" where
  "sortCompare cmp x y = (case cmp x y of Num v \<Rightarrow> v | NaN \<Rightarrow> 0)"

fun insertBy :: "('a \<Rightarrow> 'a \<Rightarrow> jsnum) \<Rightarrow> 'a \<Rightarrow> 'a list \<Rightarrow> 'a list" where
  "insertBy cmp x [] = [x]"
| "insertBy cmp x (y # ys) =
     (if sortCompare cmp x y \<le> 0 then x # y # ys else y # insertBy cmp x ys)"

fun array_sort :: "('a \<Rightarrow> 'a \<Rightarrow> jsnum) \<Rightarrow> 'a list \<Rightarrow> 'a list" where
  "array_sort cmp [] = []"
| "array_sort cmp (x # xs) = insertBy cmp x (array_sort cmp xs)"

subsection \<open>Rendering\<close>

definition newline :: string where
  "newline = [CHR 0x0A]"

text \<open>\<^verbatim>\<open>const startTime = event.start?.dateTime || event.start?.date || 'All day'\<close>.\<close>

definition renderStartTime :: "raw_event \<Rightarrow> string" where
  "renderStartTime ev =
     (case js_or (js_or (start_dateTime ev) (start_date ev)) (Some ''All day'') of
        None \<Rightarrow> [] | Some s \<Rightarrow> s)"

definition renderTitle :: "raw_event \<Rightarrow> string" where
  "renderTitle ev = (case js_or (summary ev) (Some ''(No title)'') of None \<Rightarrow> [] | Some s \<Rightarrow> s)"

definition renderDescription :: "raw_event \<Rightarrow> string" where
  "renderDescription ev =
     (case description ev of
        None \<Rightarrow> []
      | Some d \<Rightarrow> if d \<noteq> [] then newline @ ''  '' @ d else [])"

definition renderCalendar :: "item \<Rightarrow> string" where
  "renderCalendar it =
     (if calendarLabel it \<noteq> [] then '' ['' @ calendarLabel it @ '']'' else [])"

definition renderItem :: "item \<Rightarrow> string" where
  "renderItem it =
     ''- **'' @ renderTitle (event it) @ ''**'' @ renderCalendar it
       @ '' ('' @ renderStartTime (event it) @ '')'' @ renderDescription (event it) @ newline"

definition renderEvents :: "string \<Rightarrow> item list \<Rightarrow> string" where
  "renderEvents dateStr its =
     ''## Calendar Events for '' @ dateStr @ newline @ newline @ concat (map renderItem its)"

subsection \<open>The command\<close>

text \<open>
  \<open>dateStr\<close> is \<^verbatim>\<open>date.toISOString().split('T')[0]\<close>, and \<^verbatim>\<open>timeMin\<close> and \<^verbatim>\<open>timeMax\<close> are the
  bounds of that day. The result is the settings after the
  command and the trace of its effects. Nothing after the inner \<^verbatim>\<open>try\<close> throws in this model
  (notices and the editor are total), so the handler of the outer \<^verbatim>\<open>try\<close> is not reached.
\<close>

definition timeMinOf :: "string \<Rightarrow> string" where
  "timeMinOf dateStr = dateStr @ ''T00:00:00Z''"

definition timeMaxOf :: "string \<Rightarrow> string" where
  "timeMaxOf dateStr = dateStr @ ''T23:59:59Z''"

definition fetchAndInsertEvents :: "env \<Rightarrow> string \<Rightarrow> settings \<Rightarrow> settings \<times> effect list" where
  "fetchAndInsertEvents w dateStr s =
     (let r = ensureValidAccessToken w s; s1 = settings_after r in
      if \<not> ok r then (s1, effects r)
      else if calendars s1 = [] then (s1, effects r @ [ShowNotice NoCalendars])
      else
        (let fetched = fetchLoop w (timeMinOf dateStr) (timeMaxOf dateStr)
                         (accessToken s1) 0 (calendars s1);
             allEvents = fst fetched
         in if allEvents = [] then
              (s1, effects r @ snd fetched @ [ShowNotice (NoEvents dateStr)])
            else
              (let sorted_events = array_sort compareEvents allEvents;
                   eventText = renderEvents dateStr sorted_events
               in if activeView w then
                    (s1, effects r @ snd fetched @
                         [ReplaceSelection eventText,
                          ShowNotice (Inserted (length allEvents) (length (calendars s1)))])
                  else (s1, effects r @ snd fetched @ [ShowNotice NoActiveNote]))))"

section \<open>Notions used to state the properties\<close>

text \<open>A timed event whose start string parsed to a valid instant; all-day events are unconstrained.\<close>

definition timedValid :: "item \<Rightarrow> bool" where
  "timedValid e = (isAllDay e \<or> (case startTime e of Some (Num t) \<Rightarrow> True | _ \<Rightarrow> False))"

definition instantOf :: "item \<Rightarrow> int" where
  "instantOf e = (case startTime e of Some (Num t) \<Rightarrow> t | _ \<Rightarrow> 0)"

text \<open>
  What the comparator looks at: the class (all-day before timed), the instant for a timed
  event only, and the position of the calendar. Triples are ordered lexicographically.
\<close>

definition sortKey :: "item \<Rightarrow> nat \<times> int \<times> nat" where
  "sortKey e =
     (if isAllDay e then (0, 0, calendarIndex e) else (1, instantOf e, calendarIndex e))"

text \<open>The outcome of the query for the calendar at position \<open>i\<close>.\<close>

definition sourceResponse :: "env \<Rightarrow> string \<Rightarrow> string \<Rightarrow> string \<Rightarrow> nat \<times> calendar \<Rightarrow> events_response" where
  "sourceResponse w tmin tmax tok p = requestEvents w (fst p) (eventsRequest tmin tmax tok (snd p))"

text \<open>The events of a source that answered; a source that failed has none to offer.\<close>

definition sourceEvents :: "env \<Rightarrow> string \<Rightarrow> string \<Rightarrow> string \<Rightarrow> nat \<times> calendar \<Rightarrow> item list option" where
  "sourceEvents w tmin tmax tok p =
     (case sourceResponse w tmin tmax tok p of
        EventsThrows err \<Rightarrow> None
      | EventsData items \<Rightarrow> Some (map (normalizeEvent w (fst p) (snd p)) (itemsOrEmpty items)))"

text \<open>The diagnostic of a source that failed: the notice naming its label.\<close>

definition sourceDiagnostic :: "env \<Rightarrow> string \<Rightarrow> string \<Rightarrow> string \<Rightarrow> nat \<times> calendar \<Rightarrow> effect option" where
  "sourceDiagnostic w tmin tmax tok p =
     (case sourceResponse w tmin tmax tok p of
        EventsThrows err \<Rightarrow> Some (ShowNotice (SourceFetchError (label (snd p)) err))
      | EventsData items \<Rightarrow> None)"

section \<open>Example data\<close>

text \<open>
  The scenario of the specification: on 2024-03-15 the calendar "Work" returns a timed event
  and the calendar "Personal" an all-day event; between them a calendar whose query fails.
\<close>

definition work :: calendar where
  "work = \<lparr>calendar_id = ''primary'', label = ''Work''\<rparr>"

definition team :: calendar where
  "team = \<lparr>calendar_id = ''team@example.com'', label = ''Team''\<rparr>"

definition personal :: calendar where
  "personal = \<lparr>calendar_id = ''me@example.com'', label = ''Personal''\<rparr>"

definition unlabelled :: calendar where
  "unlabelled = \<lparr>calendar_id = ''other@example.com'', label = []\<rparr>"

definition standup :: raw_event where
  "standup = \<lparr>start = Some \<lparr>dateTime = Some ''2024-03-15T09:00:00Z'', date = None\<rparr>,
               summary = Some ''Standup'', description = None\<rparr>"

definition review :: raw_event where
  "review = \<lparr>start = Some \<lparr>dateTime = Some ''2024-03-15T09:00:00Z'', date = None\<rparr>,
              summary = Some ''Review'', description = Some ''Room 2''\<rparr>"

definition retro :: raw_event where
  "retro = \<lparr>start = Some \<lparr>dateTime = Some ''2024-03-15T10:00:00Z'', date = None\<rparr>,
             summary = None, description = None\<rparr>"

definition birthday :: raw_event where
  "birthday = \<lparr>start = Some \<lparr>dateTime = None, date = Some ''2024-03-15''\<rparr>,
                summary = Some ''Birthday'', description = None\<rparr>"

definition conference :: raw_event where
  "conference = \<lparr>start = Some \<lparr>dateTime = None, date = Some ''2024-03-14''\<rparr>,
                  summary = Some ''Conference'', description = None\<rparr>"

definition floating :: raw_event where
  "floating = \<lparr>start = None, summary = Some ''Someday'', description = None\<rparr>"

definition exampleParseDate :: "string \<Rightarrow> jsnum" where
  "exampleParseDate str =
     (if str = ''2024-03-15T09:00:00Z'' then Num 1710493200000
      else if str = ''2024-03-15T10:00:00Z'' then Num 1710496800000
      else if str = ''2024-03-15'' then Num 1710460800000
      else if str = ''2024-03-14'' then Num 1710374400000
      else NaN)"

definition exampleRequestEvents :: "nat \<Rightarrow> events_request \<Rightarrow> events_response" where
  "exampleRequestEvents i req =
     (if i = 0 then EventsData (Some [standup])
      else if i = 1 then EventsThrows ''Error: Request failed, status 404''
      else EventsData (Some [birthday]))"

definition exampleEnv :: env where
  "exampleEnv =
     \<lparr>requestToken = (\<lambda>req. TokenThrows ''offline''), requestEvents = exampleRequestEvents,
      parseDate = exampleParseDate, now = 1000, activeView = True\<rparr>"

definition exampleSettings :: settings where
  "exampleSettings =
     \<lparr>clientId = ''cid'', clientSecret = ''sec'', refreshToken = ''rt'',
      accessToken = ''tok'', accessTokenExpiry = 5000000,
      calendars = [work, team, personal]\<rparr>"

text \<open>Credential states: a stale access token, and a usable one without a refresh token.\<close>

definition staleSettings :: settings where
  "staleSettings = exampleSettings\<lparr>accessToken := ''old'', accessTokenExpiry := 0\<rparr>"

definition orphanTokenSettings :: settings where
  "orphanTokenSettings = exampleSettings\<lparr>refreshToken := []\<rparr>"

text \<open>An environment whose token endpoint gives the same answer to every request.\<close>

definition tokenEnv :: "token_response \<Rightarrow> env" where
  "tokenEnv resp = exampleEnv\<lparr>requestToken := (\<lambda>req. resp)\<rparr>"

section \<open>Lemmas on the token check\<close>

lemma ensureValidAccessToken_settings:
  "settings_after (ensureValidAccessToken w s) = s \<or>
   (\<exists>tok e. settings_after (ensureValidAccessToken w s) =
      s\<lparr>accessToken := tok, accessTokenExpiry := now w + expires_or_default e * 1000\<rparr>)"
  by (auto simp: ensureValidAccessToken_def Let_def
      split: token_response.splits option.splits)

lemma example_now: "now (tokenEnv resp) = 1000"
  by (simp add: tokenEnv_def exampleEnv_def)

lemma example_requestToken: "requestToken (tokenEnv resp) req = resp"
  by (simp add: tokenEnv_def)

lemma example_credentials:
  "refreshToken exampleSettings = ''rt''" "accessToken exampleSettings = ''tok''"
  "accessTokenExpiry exampleSettings = 5000000"
  "refreshToken staleSettings = ''rt''" "accessToken staleSettings = ''old''"
  "accessTokenExpiry staleSettings = 0"
  "refreshToken orphanTokenSettings = []" "accessToken orphanTokenSettings = ''tok''"
  "accessTokenExpiry orphanTokenSettings = 5000000"
  by (simp_all add: exampleSettings_def staleSettings_def orphanTokenSettings_def)

section \<open>Lemmas on the comparator and the sort\<close>

lemma timedValid_timed:
  "timedValid e \<Longrightarrow> \<not> isAllDay e \<Longrightarrow> startTime e = Some (Num (instantOf e))"
  by (auto simp: timedValid_def instantOf_def split: option.splits jsnum.splits)

lemma compareEvents_allDay:
  "isAllDay a \<Longrightarrow> isAllDay b \<Longrightarrow>
     compareEvents a b = Num (int (calendarIndex a) - int (calendarIndex b))"
  by (simp add: compareEvents_def split: option.splits)

lemma compareEvents_timed:
  "\<not> isAllDay a \<Longrightarrow> \<not> isAllDay b \<Longrightarrow> startTime a = Some (Num ta) \<Longrightarrow>
   startTime b = Some (Num tb) \<Longrightarrow>
     compareEvents a b =
       (if ta \<noteq> tb then Num (ta - tb) else Num (int (calendarIndex a) - int (calendarIndex b)))"
  by (simp add: compareEvents_def)

lemma compareEvents_mixed:
  "isAllDay a \<noteq> isAllDay b \<Longrightarrow>
     compareEvents a b = (if isAllDay a then Num (- 1) else Num 1)"
  by (simp add: compareEvents_def)

text \<open>
  A timed event whose start string did not parse compares as \<^verbatim>\<open>NaN\<close>, which the sort reads as
  "equal", with every timed event: on such events the comparator is not a consistent
  ordering, and the properties of the sorted output are stated for the others.
\<close>

lemma compareEvents_invalid_date:
  "\<not> isAllDay a \<Longrightarrow> \<not> isAllDay b \<Longrightarrow> startTime a = Some NaN \<Longrightarrow> startTime b = Some tb \<Longrightarrow>
     compareEvents a b = NaN \<and> compareEvents b a = NaN \<and> sortCompare compareEvents a b = 0"
  by (cases tb) (simp_all add: compareEvents_def sortCompare_def)

lemma sortCompare_mixed:
  "isAllDay a \<noteq> isAllDay b \<Longrightarrow>
     sortCompare compareEvents a b = (if isAllDay a then - 1 else 1)"
  by (simp add: sortCompare_def compareEvents_def)

text \<open>On events with valid instants the comparator is the lexicographic order of the keys.\<close>

lemma sortCompare_sortKey:
  assumes "timedValid a" and "timedValid b"
  shows "(sortCompare compareEvents a b \<le> 0) = (sortKey a \<le> sortKey b)"
proof (cases "isAllDay a")
  case aT: True
  show ?thesis
  proof (cases "isAllDay b")
    case True
    with aT show ?thesis
      by (simp add: compareEvents_allDay sortCompare_def sortKey_def)
  next
    case False
    with aT show ?thesis
      by (simp add: compareEvents_mixed sortCompare_def sortKey_def)
  qed
next
  case aF: False
  show ?thesis
  proof (cases "isAllDay b")
    case True
    with aF show ?thesis
      by (simp add: compareEvents_mixed sortCompare_def sortKey_def)
  next
    case False
    have "compareEvents a b =
       (if instantOf a \<noteq> instantOf b then Num (instantOf a - instantOf b)
        else Num (int (calendarIndex a) - int (calendarIndex b)))"
      using aF False assms by (intro compareEvents_timed timedValid_timed)
    with aF False show ?thesis
      by (auto simp: sortCompare_def sortKey_def)
  qed
qed

lemma insertBy_insort_key:
  assumes "timedValid x" and "\<forall>y\<in>set ys. timedValid y"
  shows "insertBy compareEvents x ys = insort_key sortKey x ys"
  using assms by (induction ys) (simp_all add: sortCompare_sortKey)

lemma set_insertBy: "set (insertBy cmp x ys) = insert x (set ys)"
  by (induction ys) auto

lemma mset_insertBy: "mset (insertBy cmp x ys) = add_mset x (mset ys)"
  by (induction ys) auto

lemma mset_array_sort: "mset (array_sort cmp xs) = mset xs"
  by (induction xs) (simp_all add: mset_insertBy)

text \<open>The sort of the model is the library's stable sort by key.\<close>

lemma array_sort_sort_key:
  assumes "\<forall>y\<in>set xs. timedValid y"
  shows "array_sort compareEvents xs = sort_key sortKey xs"
  using assms
proof (induction xs)
  case Nil
  then show ?case by simp
next
  case (Cons x xs)
  then have "array_sort compareEvents xs = sort_key sortKey xs" by simp
  moreover have "\<forall>y\<in>set (sort_key sortKey xs). timedValid y" using Cons.prems by simp
  ultimately show ?case using Cons.prems by (simp add: insertBy_insort_key)
qed

text \<open>All-day events come first whatever the instants are: by induction on the insertion.\<close>

lemma insertBy_allDay_first:
  assumes "sorted_wrt (\<lambda>a b. isAllDay b \<longrightarrow> isAllDay a) ys"
  shows "sorted_wrt (\<lambda>a b. isAllDay b \<longrightarrow> isAllDay a) (insertBy compareEvents x ys)"
  using assms
proof (induction ys)
  case Nil
  then show ?case by simp
next
  case (Cons y ys)
  show ?case
  proof (cases "sortCompare compareEvents x y \<le> 0")
    case True
    have "isAllDay y \<longrightarrow> isAllDay x"
      using True sortCompare_mixed [of x y] by (cases "isAllDay x"; cases "isAllDay y"; simp)
    then show ?thesis using True Cons.prems by auto
  next
    case False
    have "isAllDay x \<longrightarrow> isAllDay y"
      using False sortCompare_mixed [of x y] by (cases "isAllDay x"; cases "isAllDay y"; simp)
    then show ?thesis using False Cons by (auto simp: set_insertBy)
  qed
qed

lemma array_sort_allDay_first:
  "sorted_wrt (\<lambda>a b. isAllDay b \<longrightarrow> isAllDay a) (array_sort compareEvents xs)"
  by (induction xs) (simp_all add: insertBy_allDay_first)

lemma array_sort_before_allDay:
  assumes "array_sort compareEvents xs = pre @ it # post" and "isAllDay it"
  shows "\<forall>b\<in>set pre. isAllDay b"
proof -
  have "sorted_wrt (\<lambda>a b. isAllDay b \<longrightarrow> isAllDay a) (pre @ it # post)"
    using array_sort_allDay_first [of xs] by (simp only: assms(1))
  then show ?thesis using assms(2) by (simp add: sorted_wrt_append)
qed

lemma array_sort_sorted_keys:
  assumes "\<forall>y\<in>set xs. timedValid y"
  shows "sorted_wrt (\<lambda>a b. sortKey a \<le> sortKey b) (array_sort compareEvents xs)"
proof -
  have "sorted (map sortKey (sort_key sortKey xs))" by (rule sorted_sort_key)
  then have "sorted_wrt (\<lambda>a b. sortKey a \<le> sortKey b) (sort_key sortKey xs)"
    by (simp only: sorted_map)
  then show ?thesis by (simp only: array_sort_sort_key [OF assms])
qed

lemma map_sort_key_eq_sort: "map f (sort_key f xs) = sort (map f xs)"
  by (rule properties_for_sort [symmetric]) simp_all

lemma sort_cong_mset:
  fixes ks :: "('a::linorder) list"
  assumes "mset ks = mset ls"
  shows "sort ks = sort ls"
proof (rule properties_for_sort)
  show "mset (sort ls) = mset ks" using assms by simp
  show "sorted (sort ls)" by simp
qed

lemma array_sort_keys_permutation:
  assumes "\<forall>y\<in>set xs. timedValid y" and "mset ys = mset xs"
  shows "map sortKey (array_sort compareEvents ys) = map sortKey (array_sort compareEvents xs)"
proof -
  have "set ys = set xs" using assms(2) by (rule mset_eq_setD)
  then have v: "\<forall>y\<in>set ys. timedValid y" using assms(1) by simp
  have "mset (map sortKey ys) = mset (map sortKey xs)"
    using assms(2) by simp
  then have "sort (map sortKey ys) = sort (map sortKey xs)"
    by (rule sort_cong_mset)
  then have "map sortKey (sort_key sortKey ys) = map sortKey (sort_key sortKey xs)"
    by (simp only: map_sort_key_eq_sort)
  then show ?thesis
    by (simp only: array_sort_sort_key [OF assms(1)] array_sort_sort_key [OF v])
qed

lemma array_sort_stable:
  assumes "\<forall>y\<in>set xs. timedValid y"
  shows "filter (\<lambda>e. sortKey e = k) (array_sort compareEvents xs) = filter (\<lambda>e. sortKey e = k) xs"
  by (simp only: array_sort_sort_key [OF assms] sort_key_stable)

lemma sortKey_le_timed:
  "sortKey a \<le> sortKey b \<Longrightarrow> \<not> isAllDay a \<Longrightarrow> \<not> isAllDay b \<Longrightarrow> instantOf a \<le> instantOf b"
  by (auto simp: sortKey_def split: if_splits)

lemma sortKey_le_index:
  "sortKey a \<le> sortKey b \<Longrightarrow> isAllDay a = isAllDay b \<Longrightarrow> startTime a = startTime b \<Longrightarrow>
     calendarIndex a \<le> calendarIndex b"
  by (auto simp: sortKey_def instantOf_def split: if_splits)

text \<open>Normalisation yields a valid timed event whenever the start string parses.\<close>

lemma normalizeEvent_timedValid:
  assumes "\<And>str. start_dateTime ev = Some str \<Longrightarrow> str \<noteq> [] \<Longrightarrow> \<exists>t. parseDate w str = Num t"
  shows "timedValid (normalizeEvent w i cal ev)"
proof (cases "truthy (start_dateTime ev)")
  case True
  then obtain str where s: "start_dateTime ev = Some str" "str \<noteq> []"
    by (auto simp: truthy_def split: option.splits)
  with assms obtain t where "parseDate w str = Num t" by blast
  with s show ?thesis
    by (simp add: timedValid_def normalizeEvent_def js_or_def truthy_def)
next
  case False
  then show ?thesis by (simp add: timedValid_def normalizeEvent_def)
qed

section \<open>Lemmas on the loop over the calendars\<close>

lemma fetchLoop_events:
  "fst (fetchLoop w tmin tmax tok i cals)
     = concat (List.map_filter (sourceEvents w tmin tmax tok) (enumerate i cals))"
  by (induction cals arbitrary: i)
    (simp_all add: Let_def sourceEvents_def sourceResponse_def split: events_response.splits)

lemma fetchLoop_diagnostics:
  "filter (\<lambda>e. \<not> isNetworkCall e) (snd (fetchLoop w tmin tmax tok i cals))
     = List.map_filter (sourceDiagnostic w tmin tmax tok) (enumerate i cals)"
  by (induction cals arbitrary: i)
    (simp_all add: Let_def sourceDiagnostic_def sourceResponse_def split: events_response.splits)

lemma fetchLoop_requests:
  "filter isNetworkCall (snd (fetchLoop w tmin tmax tok i cals))
     = map (\<lambda>cal. GetEvents (eventsRequest tmin tmax tok cal)) cals"
  by (induction cals arbitrary: i)
    (simp_all add: Let_def split: events_response.splits)

text \<open>When every start string parses, every aggregated event is a valid one.\<close>

lemma fetchLoop_timedValid:
  assumes "\<And>str. \<exists>t. parseDate w str = Num t"
  shows "\<forall>e\<in>set (fst (fetchLoop w tmin tmax tok i cals)). timedValid e"
proof (induction cals arbitrary: i)
  case Nil
  show ?case by simp
next
  case (Cons cal cals)
  have "timedValid (normalizeEvent w i cal ev)" for ev
    by (rule normalizeEvent_timedValid) (rule assms)
  with Cons [of "Suc i"] show ?case
    by (auto simp: Let_def split: events_response.splits)
qed

lemma fetchAndInsertEvents_effects:
  assumes "ok (ensureValidAccessToken w s)"
    and "calendars (settings_after (ensureValidAccessToken w s)) \<noteq> []"
  shows "snd (fetchAndInsertEvents w dateStr s) =
     effects (ensureValidAccessToken w s)
     @ snd (fetchLoop w (timeMinOf dateStr) (timeMaxOf dateStr)
           (accessToken (settings_after (ensureValidAccessToken w s))) 0
           (calendars (settings_after (ensureValidAccessToken w s))))
     @ (if fst (fetchLoop w (timeMinOf dateStr) (timeMaxOf dateStr)
           (accessToken (settings_after (ensureValidAccessToken w s))) 0
           (calendars (settings_after (ensureValidAccessToken w s)))) = []
        then [ShowNotice (NoEvents dateStr)]
        else if activeView w then
          [ReplaceSelection (renderEvents dateStr (array_sort compareEvents
             (fst (fetchLoop w (timeMinOf dateStr) (timeMaxOf dateStr)
               (accessToken (settings_after (ensureValidAccessToken w s))) 0
               (calendars (settings_after (ensureValidAccessToken w s))))))),
           ShowNotice (Inserted
             (length (fst (fetchLoop w (timeMinOf dateStr) (timeMaxOf dateStr)
               (accessToken (settings_after (ensureValidAccessToken w s))) 0
               (calendars (settings_after (ensureValidAccessToken w s))))))
             (length (calendars (settings_after (ensureValidAccessToken w s)))))]
        else [ShowNotice NoActiveNote])"
  using assms by (simp add: fetchAndInsertEvents_def Let_def)

section \<open>The example data, evaluated\<close>

lemma example_items:
  "normalizeEvent exampleEnv i c standup =
     \<lparr>event = standup, calendarLabel = label c, calendarIndex = i, isAllDay = False,
      startTime = Some (Num 1710493200000)\<rparr>"
  "normalizeEvent exampleEnv i c review =
     \<lparr>event = review, calendarLabel = label c, calendarIndex = i, isAllDay = False,
      startTime = Some (Num 1710493200000)\<rparr>"
  "normalizeEvent exampleEnv i c retro =
     \<lparr>event = retro, calendarLabel = label c, calendarIndex = i, isAllDay = False,
      startTime = Some (Num 1710496800000)\<rparr>"
  "normalizeEvent exampleEnv i c birthday =
     \<lparr>event = birthday, calendarLabel = label c, calendarIndex = i, isAllDay = True,
      startTime = Some (Num 1710460800000)\<rparr>"
  "normalizeEvent exampleEnv i c conference =
     \<lparr>event = conference, calendarLabel = label c, calendarIndex = i, isAllDay = True,
      startTime = Some (Num 1710374400000)\<rparr>"
  "normalizeEvent exampleEnv i c floating =
     \<lparr>event = floating, calendarLabel = label c, calendarIndex = i, isAllDay = True,
      startTime = None\<rparr>"
  by (simp_all add: normalizeEvent_def exampleEnv_def exampleParseDate_def standup_def review_def
      retro_def birthday_def conference_def floating_def start_dateTime_def start_date_def
      truthy_def js_or_def)

lemma standup_neq_review: "standup \<noteq> review"
  by (simp add: standup_def review_def)

lemma example_starts:
  "start_dateTime standup = Some ''2024-03-15T09:00:00Z''"
  "start_dateTime birthday = None" "start_date birthday = Some ''2024-03-15''"
  "start_dateTime floating = None" "start_date floating = None"
  by (simp_all add: standup_def birthday_def floating_def start_dateTime_def start_date_def)

lemma example_markers:
  "renderStartTime standup = ''2024-03-15T09:00:00Z''"
  "renderStartTime birthday = ''2024-03-15''"
  "renderStartTime floating = ''All day''"
  by (simp_all add: renderStartTime_def example_starts truthy_def js_or_def)

lemma example_titles:
  "renderTitle standup = ''Standup''" "renderDescription standup = []"
  "renderTitle birthday = ''Birthday''" "renderDescription birthday = []"
  by (simp_all add: renderTitle_def renderDescription_def standup_def birthday_def
      js_or_def truthy_def)

lemma example_token_check:
  "ensureValidAccessToken exampleEnv exampleSettings
     = \<lparr>ok = True, settings_after = exampleSettings, effects = []\<rparr>"
  by (simp add: ensureValidAccessToken_def exampleEnv_def exampleSettings_def)

lemma example_fetchLoop:
  "fetchLoop exampleEnv tmin tmax tok 0 [work, team, personal] =
     ([normalizeEvent exampleEnv 0 work standup, normalizeEvent exampleEnv 2 personal birthday],
      [GetEvents (eventsRequest tmin tmax tok work),
       GetEvents (eventsRequest tmin tmax tok team),
       ShowNotice (SourceFetchError ''Team'' ''Error: Request failed, status 404''),
       GetEvents (eventsRequest tmin tmax tok personal)])"
proof -
  have q: "requestEvents exampleEnv = exampleRequestEvents"
    by (simp add: exampleEnv_def)
  have l: "label team = ''Team''" by (simp add: team_def)
  show ?thesis
    by (simp add: q l exampleRequestEvents_def Let_def itemsOrEmpty_def numeral_2_eq_2)
qed

lemma example_sorted:
  "array_sort compareEvents
     [normalizeEvent exampleEnv 0 work standup, normalizeEvent exampleEnv 2 personal birthday]
   = [normalizeEvent exampleEnv 2 personal birthday, normalizeEvent exampleEnv 0 work standup]"
  by (simp add: example_items compareEvents_def sortCompare_def)

section \<open>Properties of ensureValidAccessToken\<close>

text \<open>
  Claim C5, as amended. For every Credential state in which \<open>refreshToken\<close> is non-empty,
  \<open>accessToken\<close> is non-empty and \<open>accessTokenExpiry\<close> is strictly greater than
  \<open>now + 60000\<close>, \<open>ensureValidAccessToken\<close> succeeds at once, makes no network call, writes
  nothing and leaves the Credential unchanged; calling it again gives the same result.
\<close>

theorem ensureValidAccessToken_fast_path:
  assumes "refreshToken s \<noteq> []" and "accessToken s \<noteq> []"
    and "accessTokenExpiry s > now w + 60000"
  shows "ok (ensureValidAccessToken w s) \<and>
         networkCalls (effects (ensureValidAccessToken w s)) = 0 \<and>
         saves (effects (ensureValidAccessToken w s)) = 0 \<and>
         settings_after (ensureValidAccessToken w s) = s \<and>
         ensureValidAccessToken w (settings_after (ensureValidAccessToken w s))
           = ensureValidAccessToken w s"
  using assms by (simp add: ensureValidAccessToken_def networkCalls_def saves_def)

theorem ensureValidAccessToken_fast_path_witness:
  "refreshToken exampleSettings \<noteq> [] \<and> accessToken exampleSettings \<noteq> [] \<and>
   accessTokenExpiry exampleSettings > now (tokenEnv (TokenThrows ''offline'')) + 60000 \<and>
   ok (ensureValidAccessToken (tokenEnv (TokenThrows ''offline'')) exampleSettings) \<and>
   networkCalls (effects (ensureValidAccessToken (tokenEnv (TokenThrows ''offline'')) exampleSettings)) = 0 \<and>
   settings_after (ensureValidAccessToken (tokenEnv (TokenThrows ''offline'')) exampleSettings)
     = exampleSettings"
proof -
  have h1: "refreshToken exampleSettings \<noteq> []"
    and h2: "accessToken exampleSettings \<noteq> []"
    and h3: "accessTokenExpiry exampleSettings > now (tokenEnv (TokenThrows ''offline'')) + 60000"
    by (simp_all add: example_credentials example_now)
  from ensureValidAccessToken_fast_path [OF h1 h2 h3] h1 h2 h3 show ?thesis by blast
qed

text \<open>
  Claim C5 as stated fails: an access token that is non-empty and far from expiry does not
  make the call succeed when the refresh token is empty, as that is checked first.
\<close>

theorem fast_path_without_refresh_token_counterexample:
  "accessToken orphanTokenSettings \<noteq> [] \<and>
   accessTokenExpiry orphanTokenSettings > now (tokenEnv (TokenThrows ''offline'')) + 60000 \<and>
   \<not> ok (ensureValidAccessToken (tokenEnv (TokenThrows ''offline'')) orphanTokenSettings)"
  by (simp add: ensureValidAccessToken_def example_credentials example_now)

text \<open>
  Claim C6. For every Credential state in which \<open>refreshToken\<close> is the empty string,
  \<open>ensureValidAccessToken\<close> fails with the NotAuthenticated outcome and makes no network
  call, whatever \<open>accessToken\<close> and \<open>accessTokenExpiry\<close> are.
\<close>

theorem ensureValidAccessToken_not_authenticated:
  assumes "refreshToken s = []"
  shows "notAuthenticated (ensureValidAccessToken w s) \<and>
         networkCalls (effects (ensureValidAccessToken w s)) = 0 \<and>
         saves (effects (ensureValidAccessToken w s)) = 0 \<and>
         settings_after (ensureValidAccessToken w s) = s"
  using assms
  by (simp add: ensureValidAccessToken_def networkCalls_def saves_def notAuthenticated_def)

theorem ensureValidAccessToken_not_authenticated_witness:
  "refreshToken orphanTokenSettings = [] \<and>
   notAuthenticated
     (ensureValidAccessToken (tokenEnv (TokenData (Some ''new'') None)) orphanTokenSettings) \<and>
   networkCalls (effects
     (ensureValidAccessToken (tokenEnv (TokenData (Some ''new'') None)) orphanTokenSettings)) = 0"
proof -
  have h: "refreshToken orphanTokenSettings = []"
    by (simp add: example_credentials)
  from ensureValidAccessToken_not_authenticated [OF h] h show ?thesis by blast
qed

text \<open>
  Claim C7. When the refresh is attempted and the response lacks an access token (the field
  is absent or empty), \<open>ensureValidAccessToken\<close> fails with the RefreshRejected outcome and
  the Credential is unchanged: \<open>refreshToken\<close>, the prior \<open>accessToken\<close> and
  \<open>accessTokenExpiry\<close> keep their values, and nothing is written to the store.
\<close>

theorem ensureValidAccessToken_refresh_rejected:
  assumes "refreshToken s \<noteq> []"
    and "\<not> (accessToken s \<noteq> [] \<and> accessTokenExpiry s > now w + 60000)"
    and "requestToken w (refreshRequest s) = TokenData access_token expires_in"
    and "\<not> truthy access_token"
  shows "refreshRejected (ensureValidAccessToken w s) \<and>
         settings_after (ensureValidAccessToken w s) = s \<and>
         saves (effects (ensureValidAccessToken w s)) = 0 \<and>
         effects (ensureValidAccessToken w s)
           = [PostToken (refreshRequest s), ShowNotice RefreshFailed]"
  using assms
  by (auto simp: ensureValidAccessToken_def saves_def refreshRejected_def truthy_def
      split: option.splits)

theorem ensureValidAccessToken_refresh_rejected_witness:
  "refreshToken staleSettings \<noteq> [] \<and>
   \<not> (accessToken staleSettings \<noteq> [] \<and>
      accessTokenExpiry staleSettings > now (tokenEnv (TokenData None (Some 3599))) + 60000) \<and>
   requestToken (tokenEnv (TokenData None (Some 3599))) (refreshRequest staleSettings)
     = TokenData None (Some 3599) \<and>
   \<not> truthy None \<and>
   refreshRejected (ensureValidAccessToken (tokenEnv (TokenData None (Some 3599))) staleSettings) \<and>
   settings_after (ensureValidAccessToken (tokenEnv (TokenData None (Some 3599))) staleSettings)
     = staleSettings \<and>
   saves (effects (ensureValidAccessToken (tokenEnv (TokenData None (Some 3599))) staleSettings)) = 0"
proof -
  have h1: "refreshToken staleSettings \<noteq> []"
    and h2: "\<not> (accessToken staleSettings \<noteq> [] \<and>
      accessTokenExpiry staleSettings > now (tokenEnv (TokenData None (Some 3599))) + 60000)"
    and h3: "requestToken (tokenEnv (TokenData None (Some 3599))) (refreshRequest staleSettings)
      = TokenData None (Some 3599)"
    and h4: "\<not> truthy None"
    by (simp_all add: example_credentials example_now example_requestToken truthy_def)
  from ensureValidAccessToken_refresh_rejected [OF h1 h2 h3 h4] h1 h2 h3 h4
  show ?thesis by blast
qed

text \<open>
  Claim C8, as amended. For every successful token refresh (the refresh is attempted and the
  response carries a non-empty access token), the new \<open>accessToken\<close> is the one received,
  the new \<open>accessTokenExpiry\<close> is the call instant plus \<open>expires_in * 1000\<close> milliseconds,
  with 3600000 used when \<open>expires_in\<close> is absent from the response or is 0, and the
  Credential is written to the store exactly once, after the network call. On every path
  there is at most one write, and a write happens only on that success path.
\<close>

theorem ensureValidAccessToken_refresh_success:
  "(refreshToken s \<noteq> [] \<longrightarrow>
    \<not> (accessToken s \<noteq> [] \<and> accessTokenExpiry s > now w + 60000) \<longrightarrow>
    requestToken w (refreshRequest s) = TokenData (Some tok) expires_in \<longrightarrow> tok \<noteq> [] \<longrightarrow>
      ok (ensureValidAccessToken w s) \<and>
      accessToken (settings_after (ensureValidAccessToken w s)) = tok \<and>
      accessTokenExpiry (settings_after (ensureValidAccessToken w s)) =
        now w + (case expires_in of None \<Rightarrow> 3600000
                 | Some n \<Rightarrow> if n = 0 then 3600000 else n * 1000) \<and>
      effects (ensureValidAccessToken w s) =
        [PostToken (refreshRequest s), SaveSettings (settings_after (ensureValidAccessToken w s))] \<and>
      saves (effects (ensureValidAccessToken w s)) = 1) \<and>
   saves (effects (ensureValidAccessToken w s)) \<le> 1 \<and>
   (saves (effects (ensureValidAccessToken w s)) = 1 \<longrightarrow>
      ok (ensureValidAccessToken w s) \<and>
      (\<exists>tok' e'. requestToken w (refreshRequest s) = TokenData (Some tok') e' \<and> tok' \<noteq> [] \<and>
         PostToken (refreshRequest s) \<in> set (effects (ensureValidAccessToken w s))))"
  by (auto simp: ensureValidAccessToken_def saves_def expires_or_default_def Let_def
      split: option.splits token_response.splits)

theorem ensureValidAccessToken_refresh_success_witness:
  "refreshToken staleSettings \<noteq> [] \<and>
   \<not> (accessToken staleSettings \<noteq> [] \<and>
      accessTokenExpiry staleSettings > now (tokenEnv (TokenData (Some ''new'') (Some 3599))) + 60000) \<and>
   requestToken (tokenEnv (TokenData (Some ''new'') (Some 3599))) (refreshRequest staleSettings)
     = TokenData (Some ''new'') (Some 3599) \<and>
   ''new'' \<noteq> [] \<and>
   ok (ensureValidAccessToken (tokenEnv (TokenData (Some ''new'') (Some 3599))) staleSettings) \<and>
   accessToken (settings_after
     (ensureValidAccessToken (tokenEnv (TokenData (Some ''new'') (Some 3599))) staleSettings))
     = ''new'' \<and>
   accessTokenExpiry (settings_after
     (ensureValidAccessToken (tokenEnv (TokenData (Some ''new'') (Some 3599))) staleSettings))
     = 3600000 \<and>
   saves (effects
     (ensureValidAccessToken (tokenEnv (TokenData (Some ''new'') (Some 3599))) staleSettings)) = 1"
proof -
  have h1: "refreshToken staleSettings \<noteq> []"
    and h2: "\<not> (accessToken staleSettings \<noteq> [] \<and>
      accessTokenExpiry staleSettings > now (tokenEnv (TokenData (Some ''new'') (Some 3599))) + 60000)"
    and h3: "requestToken (tokenEnv (TokenData (Some ''new'') (Some 3599))) (refreshRequest staleSettings)
      = TokenData (Some ''new'') (Some 3599)"
    and h4: "''new'' \<noteq> []"
    by (simp_all add: example_credentials example_now example_requestToken)
  have v: "now (tokenEnv (TokenData (Some ''new'') (Some 3599)))
      + (case Some 3599 of None \<Rightarrow> 3600000 | Some n \<Rightarrow> if n = 0 then 3600000 else n * 1000)
      = (3600000::int)"
    by (simp add: example_now)
  from ensureValidAccessToken_refresh_success
         [of staleSettings "tokenEnv (TokenData (Some ''new'') (Some 3599))" "''new''" "Some 3599"]
       h1 h2 h3 h4
  have "ok (ensureValidAccessToken (tokenEnv (TokenData (Some ''new'') (Some 3599))) staleSettings) \<and>
      accessToken (settings_after
        (ensureValidAccessToken (tokenEnv (TokenData (Some ''new'') (Some 3599))) staleSettings)) = ''new'' \<and>
      accessTokenExpiry (settings_after
        (ensureValidAccessToken (tokenEnv (TokenData (Some ''new'') (Some 3599))) staleSettings)) =
        now (tokenEnv (TokenData (Some ''new'') (Some 3599)))
         + (case Some 3599 of None \<Rightarrow> 3600000 | Some n \<Rightarrow> if n = 0 then 3600000 else n * 1000) \<and>
      saves (effects
        (ensureValidAccessToken (tokenEnv (TokenData (Some ''new'') (Some 3599))) staleSettings)) = 1"
    by blast
  with h1 h2 h3 h4 show ?thesis by (simp only: v) blast
qed

text \<open>
  Claim C8 as stated fails: a response whose \<open>expires_in\<close> is present and 0 gets the
  default of 3600000 milliseconds, not \<open>0 * 1000\<close>.
\<close>

theorem expires_in_zero_counterexample:
  "requestToken (tokenEnv (TokenData (Some ''new'') (Some 0))) (refreshRequest staleSettings)
     = TokenData (Some ''new'') (Some 0) \<and>
   ok (ensureValidAccessToken (tokenEnv (TokenData (Some ''new'') (Some 0))) staleSettings) \<and>
   accessTokenExpiry (settings_after
       (ensureValidAccessToken (tokenEnv (TokenData (Some ''new'') (Some 0))) staleSettings))
     \<noteq> now (tokenEnv (TokenData (Some ''new'') (Some 0))) + 0 * 1000 \<and>
   accessTokenExpiry (settings_after
       (ensureValidAccessToken (tokenEnv (TokenData (Some ''new'') (Some 0))) staleSettings))
     = now (tokenEnv (TokenData (Some ''new'') (Some 0))) + 3600000"
  by (simp add: ensureValidAccessToken_def example_credentials example_now example_requestToken
      expires_or_default_def Let_def)

text \<open>
  Claim C9. On every path of \<open>ensureValidAccessToken\<close> (not authenticated, fast path,
  refresh success, refresh rejection, transport failure) the \<open>refreshToken\<close> of the
  Credential is as before; the settings after the call differ from those before at most in
  \<open>accessToken\<close> and \<open>accessTokenExpiry\<close>.
\<close>

theorem ensureValidAccessToken_frame:
  "refreshToken (settings_after (ensureValidAccessToken w s)) = refreshToken s \<and>
   clientId (settings_after (ensureValidAccessToken w s)) = clientId s \<and>
   clientSecret (settings_after (ensureValidAccessToken w s)) = clientSecret s \<and>
   calendars (settings_after (ensureValidAccessToken w s)) = calendars s \<and>
   (\<exists>a e. settings_after (ensureValidAccessToken w s)
             = s\<lparr>accessToken := a, accessTokenExpiry := e\<rparr>)"
proof -
  from ensureValidAccessToken_settings [of w s]
  show ?thesis
  proof
    assume h: "settings_after (ensureValidAccessToken w s) = s"
    have "s = s\<lparr>accessToken := accessToken s, accessTokenExpiry := accessTokenExpiry s\<rparr>"
      by simp
    with h show ?thesis by metis
  next
    assume "\<exists>tok e. settings_after (ensureValidAccessToken w s) =
      s\<lparr>accessToken := tok, accessTokenExpiry := now w + expires_or_default e * 1000\<rparr>"
    then obtain tok e where "settings_after (ensureValidAccessToken w s) =
      s\<lparr>accessToken := tok, accessTokenExpiry := now w + expires_or_default e * 1000\<rparr>"
      by blast
    then show ?thesis by auto
  qed
qed

theorem ensureValidAccessToken_frame_witness:
  "refreshToken (settings_after
      (ensureValidAccessToken (tokenEnv (TokenData (Some ''new'') None)) staleSettings)) = ''rt''"
  using ensureValidAccessToken_frame [of "tokenEnv (TokenData (Some ''new'') None)" staleSettings]
  by (simp add: example_credentials)

section \<open>Properties of fetchAndInsertEvents\<close>

text \<open>
  Claim C1, as amended. For every list of normalised events whose timed events have valid
  start instants, the sorted output is a rearrangement of the input in which every all-day
  event precedes every timed event, timed events are non-decreasing by start instant, and
  events with equal \<open>(isAllDay, startTime)\<close> appear in non-decreasing \<open>calendarIndex\<close>.
  For every permutation of the input the output shows the same sequence of sort keys (the
  class, the instant of a timed event, the calendar position), and events with the same sort
  key keep the relative order they had in the input: the output is the same for every
  permutation up to the order of such ties, not beyond.
\<close>

theorem sorted_output_order:
  assumes "\<forall>e\<in>set xs. timedValid e"
  shows "mset (array_sort compareEvents xs) = mset xs \<and>
     sorted_wrt (\<lambda>a b. isAllDay b \<longrightarrow> isAllDay a) (array_sort compareEvents xs) \<and>
     sorted_wrt (\<lambda>a b. \<not> isAllDay a \<and> \<not> isAllDay b \<longrightarrow> instantOf a \<le> instantOf b)
       (array_sort compareEvents xs) \<and>
     sorted_wrt (\<lambda>a b. isAllDay a = isAllDay b \<and> startTime a = startTime b
                   \<longrightarrow> calendarIndex a \<le> calendarIndex b)
       (array_sort compareEvents xs) \<and>
     (\<forall>ys. mset ys = mset xs \<longrightarrow>
        map sortKey (array_sort compareEvents ys) = map sortKey (array_sort compareEvents xs)) \<and>
     (\<forall>k. filter (\<lambda>e. sortKey e = k) (array_sort compareEvents xs)
            = filter (\<lambda>e. sortKey e = k) xs)"
proof -
  note s = array_sort_sorted_keys [OF assms]
  have 1: "mset (array_sort compareEvents xs) = mset xs" by (rule mset_array_sort)
  have 2: "sorted_wrt (\<lambda>a b. isAllDay b \<longrightarrow> isAllDay a) (array_sort compareEvents xs)"
    by (rule array_sort_allDay_first)
  have 3: "sorted_wrt (\<lambda>a b. \<not> isAllDay a \<and> \<not> isAllDay b \<longrightarrow> instantOf a \<le> instantOf b)
       (array_sort compareEvents xs)"
    by (rule sorted_wrt_mono_rel [OF _ s]) (simp add: sortKey_le_timed)
  have 4: "sorted_wrt (\<lambda>a b. isAllDay a = isAllDay b \<and> startTime a = startTime b
                   \<longrightarrow> calendarIndex a \<le> calendarIndex b) (array_sort compareEvents xs)"
    by (rule sorted_wrt_mono_rel [OF _ s]) (simp add: sortKey_le_index)
  have 5: "\<forall>ys. mset ys = mset xs \<longrightarrow>
        map sortKey (array_sort compareEvents ys) = map sortKey (array_sort compareEvents xs)"
    using array_sort_keys_permutation [OF assms] by blast
  have 6: "\<forall>k. filter (\<lambda>e. sortKey e = k) (array_sort compareEvents xs)
            = filter (\<lambda>e. sortKey e = k) xs"
    using array_sort_stable [OF assms] by blast
  from 1 2 3 4 5 6 show ?thesis by blast
qed

theorem sorted_output_order_witness:
  "timedValid (normalizeEvent exampleEnv 0 work standup) \<and>
   timedValid (normalizeEvent exampleEnv 2 personal birthday) \<and>
   array_sort compareEvents
     [normalizeEvent exampleEnv 0 work standup, normalizeEvent exampleEnv 2 personal birthday]
     = [normalizeEvent exampleEnv 2 personal birthday, normalizeEvent exampleEnv 0 work standup] \<and>
   sorted_wrt (\<lambda>a b. isAllDay b \<longrightarrow> isAllDay a)
     (array_sort compareEvents
        [normalizeEvent exampleEnv 0 work standup, normalizeEvent exampleEnv 2 personal birthday]) \<and>
   mset (array_sort compareEvents
        [normalizeEvent exampleEnv 0 work standup, normalizeEvent exampleEnv 2 personal birthday])
     = mset [normalizeEvent exampleEnv 0 work standup, normalizeEvent exampleEnv 2 personal birthday]"
proof -
  have h: "\<forall>e\<in>set [normalizeEvent exampleEnv 0 work standup,
              normalizeEvent exampleEnv 2 personal birthday]. timedValid e"
    by (simp add: example_items timedValid_def)
  have e: "array_sort compareEvents
     [normalizeEvent exampleEnv 0 work standup, normalizeEvent exampleEnv 2 personal birthday]
     = [normalizeEvent exampleEnv 2 personal birthday, normalizeEvent exampleEnv 0 work standup]"
    by (simp add: example_items compareEvents_def sortCompare_def)
  have t: "timedValid (normalizeEvent exampleEnv 0 work standup)"
    "timedValid (normalizeEvent exampleEnv 2 personal birthday)"
    using h by simp_all
  from sorted_output_order [OF h] t e show ?thesis by blast
qed

text \<open>
  Claim C1 as stated fails: two timed events of one calendar that start at the same instant
  compare as equal, the sort keeps them in input order, and so the two orders of this input
  give two different outputs.
\<close>

theorem sort_input_order_counterexample:
  "mset [normalizeEvent exampleEnv 0 work standup, normalizeEvent exampleEnv 0 work review]
     = mset [normalizeEvent exampleEnv 0 work review, normalizeEvent exampleEnv 0 work standup] \<and>
   array_sort compareEvents
       [normalizeEvent exampleEnv 0 work standup, normalizeEvent exampleEnv 0 work review]
     \<noteq> array_sort compareEvents
       [normalizeEvent exampleEnv 0 work review, normalizeEvent exampleEnv 0 work standup]"
  by (simp add: example_items compareEvents_def sortCompare_def standup_neq_review)

text \<open>
  Claim C2, as amended. In the merge comparator, for every pair of timed events with valid
  start instants the one with the earlier instant sorts strictly first, and equal instants
  fall through to the tie-break by \<open>calendarIndex\<close>. A pair of all-day events is ordered by
  \<open>calendarIndex\<close> alone, whatever their start instants are.
\<close>

theorem compareEvents_start_instants:
  "(\<not> isAllDay a \<and> \<not> isAllDay b \<and> startTime a = Some (Num ta) \<and> startTime b = Some (Num tb) \<longrightarrow>
      (ta < tb \<longrightarrow> sortCompare compareEvents a b < 0 \<and> sortCompare compareEvents b a > 0 \<and>
                 array_sort compareEvents [a, b] = [a, b] \<and>
                 array_sort compareEvents [b, a] = [a, b]) \<and>
      (ta = tb \<longrightarrow> compareEvents a b = Num (int (calendarIndex a) - int (calendarIndex b)))) \<and>
   (isAllDay a \<and> isAllDay b \<longrightarrow>
      compareEvents a b = Num (int (calendarIndex a) - int (calendarIndex b)))"
  by (simp add: compareEvents_allDay compareEvents_timed sortCompare_def)

theorem compareEvents_start_instants_witness:
  "\<not> isAllDay (normalizeEvent exampleEnv 1 personal standup) \<and>
   \<not> isAllDay (normalizeEvent exampleEnv 0 work retro) \<and>
   startTime (normalizeEvent exampleEnv 1 personal standup) = Some (Num 1710493200000) \<and>
   startTime (normalizeEvent exampleEnv 0 work retro) = Some (Num 1710496800000) \<and>
   (1710493200000::int) < 1710496800000 \<and>
   sortCompare compareEvents (normalizeEvent exampleEnv 1 personal standup)
     (normalizeEvent exampleEnv 0 work retro) < 0 \<and>
   array_sort compareEvents
     [normalizeEvent exampleEnv 0 work retro, normalizeEvent exampleEnv 1 personal standup]
     = [normalizeEvent exampleEnv 1 personal standup, normalizeEvent exampleEnv 0 work retro]"
proof -
  have h: "\<not> isAllDay (normalizeEvent exampleEnv 1 personal standup)"
    "\<not> isAllDay (normalizeEvent exampleEnv 0 work retro)"
    "startTime (normalizeEvent exampleEnv 1 personal standup) = Some (Num 1710493200000)"
    "startTime (normalizeEvent exampleEnv 0 work retro) = Some (Num 1710496800000)"
    "(1710493200000::int) < 1710496800000"
    by (simp_all add: example_items)
  from compareEvents_start_instants [of "normalizeEvent exampleEnv 1 personal standup"
       "normalizeEvent exampleEnv 0 work retro" 1710493200000 1710496800000] h
  show ?thesis by blast
qed

text \<open>
  Claim C2 as stated fails for all-day events: of two all-day events with valid start
  instants, the one of the earlier day sorts after the other when its calendar comes later.
\<close>

theorem allDay_instants_counterexample:
  "isAllDay (normalizeEvent exampleEnv 0 work birthday) \<and>
   isAllDay (normalizeEvent exampleEnv 1 personal conference) \<and>
   startTime (normalizeEvent exampleEnv 0 work birthday) = Some (Num 1710460800000) \<and>
   startTime (normalizeEvent exampleEnv 1 personal conference) = Some (Num 1710374400000) \<and>
   (1710374400000::int) < 1710460800000 \<and>
   sortCompare compareEvents (normalizeEvent exampleEnv 1 personal conference)
       (normalizeEvent exampleEnv 0 work birthday) = 1 \<and>
   array_sort compareEvents
       [normalizeEvent exampleEnv 1 personal conference, normalizeEvent exampleEnv 0 work birthday]
     = [normalizeEvent exampleEnv 0 work birthday, normalizeEvent exampleEnv 1 personal conference]"
  by (simp add: example_items compareEvents_def sortCompare_def)

text \<open>
  Claim C3, as amended. For every event rendered by \<open>fetchAndInsertEvents\<close>, the
  parenthesised start-time marker is the raw \<open>dateTime\<close> string when the event is timed,
  the raw \<open>date\<close> string when the event is all-day and has a non-empty date, and the literal
  "All day" when the event is all-day and has no date; nothing is re-formatted. The
  bracketed source label is left out when the label of the calendar is empty.
\<close>

theorem render_start_marker:
  "(\<not> isAllDay (normalizeEvent w i cal ev) \<longrightarrow>
      Some (renderStartTime ev) = start_dateTime ev) \<and>
   (isAllDay (normalizeEvent w i cal ev) \<and> truthy (start_date ev) \<longrightarrow>
      Some (renderStartTime ev) = start_date ev) \<and>
   (isAllDay (normalizeEvent w i cal ev) \<and> \<not> truthy (start_date ev) \<longrightarrow>
      renderStartTime ev = ''All day'') \<and>
   renderItem (normalizeEvent w i cal ev) =
     ''- **'' @ renderTitle ev @ ''**''
       @ (if label cal = [] then [] else '' ['' @ label cal @ '']'')
       @ '' ('' @ renderStartTime ev @ '')'' @ renderDescription ev @ newline"
  by (auto simp: normalizeEvent_def renderStartTime_def renderItem_def renderCalendar_def
      js_or_def truthy_def split: option.splits)

theorem render_start_marker_witness:
  "\<not> isAllDay (normalizeEvent exampleEnv 0 unlabelled standup) \<and>
   Some (renderStartTime standup) = start_dateTime standup \<and>
   label unlabelled = [] \<and>
   renderItem (normalizeEvent exampleEnv 0 unlabelled standup)
     = ''- **Standup** (2024-03-15T09:00:00Z)'' @ newline \<and>
   isAllDay (normalizeEvent exampleEnv 1 personal birthday) \<and> truthy (start_date birthday) \<and>
   Some (renderStartTime birthday) = start_date birthday \<and>
   isAllDay (normalizeEvent exampleEnv 1 personal floating) \<and> \<not> truthy (start_date floating) \<and>
   renderStartTime floating = ''All day''"
proof -
  have h: "\<not> isAllDay (normalizeEvent exampleEnv 0 unlabelled standup)"
    "isAllDay (normalizeEvent exampleEnv 1 personal birthday)" "truthy (start_date birthday)"
    "isAllDay (normalizeEvent exampleEnv 1 personal floating)" "\<not> truthy (start_date floating)"
    "label unlabelled = []"
    by (simp_all add: example_items example_starts truthy_def unlabelled_def)
  have r: "''- **'' @ renderTitle standup @ ''**''
       @ (if label unlabelled = [] then [] else '' ['' @ label unlabelled @ '']'')
       @ '' ('' @ renderStartTime standup @ '')'' @ renderDescription standup @ newline
     = ''- **Standup** (2024-03-15T09:00:00Z)'' @ newline"
    by (simp add: h example_markers example_titles)
  from render_start_marker [of exampleEnv 0 unlabelled standup] h(1)
  have a: "Some (renderStartTime standup) = start_dateTime standup" by blast
  from render_start_marker [of exampleEnv 0 unlabelled standup]
  have "renderItem (normalizeEvent exampleEnv 0 unlabelled standup) =
     ''- **'' @ renderTitle standup @ ''**''
       @ (if label unlabelled = [] then [] else '' ['' @ label unlabelled @ '']'')
       @ '' ('' @ renderStartTime standup @ '')'' @ renderDescription standup @ newline"
    by blast
  then have b: "renderItem (normalizeEvent exampleEnv 0 unlabelled standup)
     = ''- **Standup** (2024-03-15T09:00:00Z)'' @ newline"
    by (simp only: r)
  from render_start_marker [of exampleEnv 1 personal birthday] h(2,3)
  have c: "Some (renderStartTime birthday) = start_date birthday" by blast
  from render_start_marker [of exampleEnv 1 personal floating] h(4,5)
  have d: "renderStartTime floating = ''All day''" by blast
  from h a b c d show ?thesis by blast
qed

text \<open>
  Claim C3 as stated fails: an all-day event that carries a date is rendered with that date
  as its marker, not with "All day".
\<close>

theorem allDay_marker_counterexample:
  "isAllDay (normalizeEvent exampleEnv 1 personal birthday) \<and>
   renderStartTime (event (normalizeEvent exampleEnv 1 personal birthday)) = ''2024-03-15'' \<and>
   renderStartTime (event (normalizeEvent exampleEnv 1 personal birthday)) \<noteq> ''All day''"
  by (simp add: example_items example_markers)

text \<open>
  Claim C4. Whatever sources fail, the loop over the configured calendars queries every
  source in configured order; a source whose query fails contributes no event and exactly
  one diagnostic notice naming its label; the aggregated events are exactly the events of
  the sources that answered, in configured order, each with the position of its calendar.
  The command does not fail: with a valid token and a calendar configured, its effects are
  those of the token check, then those of the loop (the queries and the diagnostics), then
  the insertion of the rendering of the sorted aggregate with a report of the counts (or the
  "no events" notice when the aggregate is empty, or the "no active note" notice).
\<close>

theorem partial_failure_containment:
  assumes "r = ensureValidAccessToken w s"
    and "cals = calendars (settings_after r)"
    and "tok = accessToken (settings_after r)"
    and "tmin = timeMinOf dateStr" and "tmax = timeMaxOf dateStr"
    and "evs = concat (List.map_filter (sourceEvents w tmin tmax tok) (enumerate 0 cals))"
  shows
   "fst (fetchLoop w tmin tmax tok 0 cals) = evs \<and>
    filter (\<lambda>e. \<not> isNetworkCall e) (snd (fetchLoop w tmin tmax tok 0 cals))
      = List.map_filter (sourceDiagnostic w tmin tmax tok) (enumerate 0 cals) \<and>
    filter isNetworkCall (snd (fetchLoop w tmin tmax tok 0 cals))
      = map (\<lambda>cal. GetEvents (eventsRequest tmin tmax tok cal)) cals \<and>
    (ok r \<and> cals \<noteq> [] \<longrightarrow>
       snd (fetchAndInsertEvents w dateStr s) =
         effects r @ snd (fetchLoop w tmin tmax tok 0 cals)
         @ (if evs = [] then [ShowNotice (NoEvents dateStr)]
            else if activeView w then
              [ReplaceSelection (renderEvents dateStr (array_sort compareEvents evs)),
               ShowNotice (Inserted (length evs) (length cals))]
            else [ShowNotice NoActiveNote]))"
proof -
  have e: "fst (fetchLoop w tmin tmax tok 0 cals) = evs"
    by (simp only: assms(6) fetchLoop_events)
  have "ok r \<and> cals \<noteq> [] \<longrightarrow>
       snd (fetchAndInsertEvents w dateStr s) =
         effects r @ snd (fetchLoop w tmin tmax tok 0 cals)
         @ (if evs = [] then [ShowNotice (NoEvents dateStr)]
            else if activeView w then
              [ReplaceSelection (renderEvents dateStr (array_sort compareEvents evs)),
               ShowNotice (Inserted (length evs) (length cals))]
            else [ShowNotice NoActiveNote])"
  proof
    assume a: "ok r \<and> cals \<noteq> []"
    have "snd (fetchAndInsertEvents w dateStr s) =
       effects r @ snd (fetchLoop w tmin tmax tok 0 cals)
       @ (if fst (fetchLoop w tmin tmax tok 0 cals) = [] then [ShowNotice (NoEvents dateStr)]
          else if activeView w then
            [ReplaceSelection (renderEvents dateStr (array_sort compareEvents
               (fst (fetchLoop w tmin tmax tok 0 cals)))),
             ShowNotice (Inserted (length (fst (fetchLoop w tmin tmax tok 0 cals)))
               (length cals))]
          else [ShowNotice NoActiveNote])"
      unfolding assms(1-5)
      by (rule fetchAndInsertEvents_effects)
        (use a assms(1-5) in simp_all)
    then show "snd (fetchAndInsertEvents w dateStr s) =
         effects r @ snd (fetchLoop w tmin tmax tok 0 cals)
         @ (if evs = [] then [ShowNotice (NoEvents dateStr)]
            else if activeView w then
              [ReplaceSelection (renderEvents dateStr (array_sort compareEvents evs)),
               ShowNotice (Inserted (length evs) (length cals))]
            else [ShowNotice NoActiveNote])"
      by (simp only: e)
  qed
  with e fetchLoop_diagnostics [of w tmin tmax tok 0 cals]
    fetchLoop_requests [of w tmin tmax tok 0 cals]
  show ?thesis by blast
qed

theorem partial_failure_containment_witness:
  "ok (ensureValidAccessToken exampleEnv exampleSettings) \<and>
   calendars exampleSettings = [work, team, personal] \<and>
   activeView exampleEnv \<and>
   snd (fetchAndInsertEvents exampleEnv ''2024-03-15'' exampleSettings) =
     [GetEvents (eventsRequest (timeMinOf ''2024-03-15'') (timeMaxOf ''2024-03-15'') ''tok'' work),
      GetEvents (eventsRequest (timeMinOf ''2024-03-15'') (timeMaxOf ''2024-03-15'') ''tok'' team),
      ShowNotice (SourceFetchError ''Team'' ''Error: Request failed, status 404''),
      GetEvents (eventsRequest (timeMinOf ''2024-03-15'') (timeMaxOf ''2024-03-15'') ''tok'' personal),
      ReplaceSelection (renderEvents ''2024-03-15''
        [normalizeEvent exampleEnv 2 personal birthday, normalizeEvent exampleEnv 0 work standup]),
      ShowNotice (Inserted 2 3)]"
proof -
  define r where "r = ensureValidAccessToken exampleEnv exampleSettings"
  define cals where "cals = calendars (settings_after r)"
  define tok where "tok = accessToken (settings_after r)"
  define tmin where "tmin = timeMinOf ''2024-03-15''"
  define tmax where "tmax = timeMaxOf ''2024-03-15''"
  define evs where
    "evs = concat (List.map_filter (sourceEvents exampleEnv tmin tmax tok) (enumerate 0 cals))"
  note t = partial_failure_containment [OF r_def cals_def tok_def tmin_def tmax_def evs_def]
  have r: "r = \<lparr>ok = True, settings_after = exampleSettings, effects = []\<rparr>"
    by (simp only: r_def example_token_check)
  have c: "cals = [work, team, personal]"
    by (simp add: cals_def r exampleSettings_def)
  have k: "tok = ''tok''"
    by (simp add: tok_def r exampleSettings_def)
  have a: "activeView exampleEnv" by (simp add: exampleEnv_def)
  from t have "fst (fetchLoop exampleEnv tmin tmax tok 0 cals) = evs" by blast
  then have e: "evs = [normalizeEvent exampleEnv 0 work standup,
      normalizeEvent exampleEnv 2 personal birthday]"
    by (simp add: c example_fetchLoop del: fetchLoop.simps)
  have "ok r \<and> cals \<noteq> []"
    by (simp add: r c)
  with t have "snd (fetchAndInsertEvents exampleEnv ''2024-03-15'' exampleSettings) =
         effects r @ snd (fetchLoop exampleEnv tmin tmax tok 0 cals)
         @ (if evs = [] then [ShowNotice (NoEvents ''2024-03-15'')]
            else if activeView exampleEnv then
              [ReplaceSelection (renderEvents ''2024-03-15'' (array_sort compareEvents evs)),
               ShowNotice (Inserted (length evs) (length cals))]
            else [ShowNotice NoActiveNote])"
    by blast
  then have "snd (fetchAndInsertEvents exampleEnv ''2024-03-15'' exampleSettings) =
     [GetEvents (eventsRequest tmin tmax ''tok'' work),
      GetEvents (eventsRequest tmin tmax ''tok'' team),
      ShowNotice (SourceFetchError ''Team'' ''Error: Request failed, status 404''),
      GetEvents (eventsRequest tmin tmax ''tok'' personal),
      ReplaceSelection (renderEvents ''2024-03-15''
        [normalizeEvent exampleEnv 2 personal birthday, normalizeEvent exampleEnv 0 work standup]),
      ShowNotice (Inserted 2 3)]"
    by (simp add: r c e k a example_fetchLoop example_sorted
        del: fetchLoop.simps array_sort.simps)
  moreover have "ok (ensureValidAccessToken exampleEnv exampleSettings)"
    by (simp add: example_token_check)
  moreover have "calendars exampleSettings = [work, team, personal]"
    by (simp add: exampleSettings_def)
  ultimately show ?thesis using a by (simp add: tmin_def tmax_def)
qed

text \<open>
  Claim C10. A raw event with neither \<open>start.dateTime\<close> nor \<open>start.date\<close> is normalised
  to an all-day event with a null \<open>startTime\<close>; the comparator puts it before every timed
  event, in the sorted output no timed event precedes it, and its rendered start-time marker
  is the literal "All day".
\<close>

theorem missing_start_is_allDay:
  assumes "start_dateTime ev = None" and "start_date ev = None"
  shows "isAllDay (normalizeEvent w i cal ev) \<and>
     startTime (normalizeEvent w i cal ev) = None \<and>
     renderStartTime (event (normalizeEvent w i cal ev)) = ''All day'' \<and>
     (\<forall>b. \<not> isAllDay b \<longrightarrow>
        compareEvents (normalizeEvent w i cal ev) b = Num (- 1) \<and>
        compareEvents b (normalizeEvent w i cal ev) = Num 1) \<and>
     (\<forall>xs pre post.
        array_sort compareEvents xs = pre @ normalizeEvent w i cal ev # post \<longrightarrow>
        (\<forall>b\<in>set pre. isAllDay b))"
proof -
  have a: "isAllDay (normalizeEvent w i cal ev)"
    using assms by (simp add: normalizeEvent_def truthy_def)
  have b: "startTime (normalizeEvent w i cal ev) = None"
    using assms by (simp add: normalizeEvent_def truthy_def js_or_def)
  have c: "renderStartTime (event (normalizeEvent w i cal ev)) = ''All day''"
    using assms by (simp add: normalizeEvent_def renderStartTime_def truthy_def js_or_def)
  from a b c array_sort_before_allDay [OF _ a]
  show ?thesis by (simp add: compareEvents_mixed)
qed

theorem missing_start_is_allDay_witness:
  "start_dateTime floating = None \<and> start_date floating = None \<and>
   isAllDay (normalizeEvent exampleEnv 0 work floating) \<and>
   startTime (normalizeEvent exampleEnv 0 work floating) = None \<and>
   renderStartTime (event (normalizeEvent exampleEnv 0 work floating)) = ''All day'' \<and>
   \<not> isAllDay (normalizeEvent exampleEnv 0 work standup) \<and>
   compareEvents (normalizeEvent exampleEnv 0 work floating)
     (normalizeEvent exampleEnv 0 work standup) = Num (- 1) \<and>
   array_sort compareEvents
     [normalizeEvent exampleEnv 0 work standup, normalizeEvent exampleEnv 0 work floating]
     = [normalizeEvent exampleEnv 0 work floating, normalizeEvent exampleEnv 0 work standup]"
proof -
  have h: "start_dateTime floating = None" "start_date floating = None"
    by (simp_all add: example_starts)
  have n: "\<not> isAllDay (normalizeEvent exampleEnv 0 work standup)"
    by (simp add: example_items)
  have s: "array_sort compareEvents
     [normalizeEvent exampleEnv 0 work standup, normalizeEvent exampleEnv 0 work floating]
     = [normalizeEvent exampleEnv 0 work floating, normalizeEvent exampleEnv 0 work standup]"
    by (simp add: example_items compareEvents_def sortCompare_def)
  from missing_start_is_allDay [OF h, of exampleEnv 0 work] h n s
  show ?thesis by blast
qed

end
